theory Spec2Isabelle
  imports Complex_Main "HOL-Library.Word"
begin

unbundle bit_operations_syntax

section \<open>Data model\<close>

text \<open>
  The development follows \<^verbatim>\<open>arangod/VocBase/vocbase.cpp\<close>: the per-database registry of
  collections and views (\<^verbatim>\<open>TRI_vocbase_t\<close>), its reference counter, and the rename and
  drop workflows.

  A data source is either a collection or a view; \<^verbatim>\<open>LogicalCollection::category()\<close> and
  \<^verbatim>\<open>LogicalView::category()\<close> are the two category tags the code compares.
\<close>

datatype category = Collection | View

text \<open>The load states of a collection that the code switches on.\<close>

datatype TRI_vocbase_col_status_e =
    TRI_VOC_COL_STATUS_CORRUPTED
  | TRI_VOC_COL_STATUS_UNLOADED
  | TRI_VOC_COL_STATUS_LOADED
  | TRI_VOC_COL_STATUS_UNLOADING
  | TRI_VOC_COL_STATUS_DELETED
  | TRI_VOC_COL_STATUS_LOADING

text \<open>
  The error codes the modelled functions return or throw. A collaborator may report any
  other code; \<open>TRI_ERROR_OTHER\<close> stands for those.
\<close>

datatype error_code =
    TRI_ERROR_NO_ERROR
  | TRI_ERROR_INTERNAL
  | TRI_ERROR_FORBIDDEN
  | TRI_ERROR_LOCK_TIMEOUT
  | TRI_ERROR_ARANGO_ILLEGAL_NAME
  | TRI_ERROR_ARANGO_DUPLICATE_NAME
  | TRI_ERROR_ARANGO_DUPLICATE_IDENTIFIER
  | TRI_ERROR_ARANGO_DATA_SOURCE_NOT_FOUND
  | TRI_ERROR_OTHER int

text \<open>
  The fields of a \<^verbatim>\<open>LogicalDataSource\<close> / \<^verbatim>\<open>LogicalCollection\<close> object that the registry
  code reads or writes: \<^verbatim>\<open>category()\<close>, \<^verbatim>\<open>id()\<close>, \<^verbatim>\<open>name()\<close>, \<^verbatim>\<open>globallyUniqueId()\<close>,
  \<^verbatim>\<open>isSystem()\<close>, \<^verbatim>\<open>status()\<close> and \<^verbatim>\<open>deleted()\<close>.
\<close>

record data_source =
  ds_category :: category
  ds_id :: nat
  ds_name :: string
  ds_globallyUniqueId :: string
  ds_isSystem :: bool
  ds_status :: TRI_vocbase_col_status_e
  ds_deleted :: bool

text \<open>
  The registry maps hold shared pointers, and the same object is reached through all of
  them and through the caller's handle. Objects therefore live in a store indexed by
  references, and the maps hold references.
\<close>

type_synonym ref = nat

text \<open>
  What the modelled functions do to their surroundings, in program order: acquisitions
  and explicit releases of the inventory lock, the data-source lock and a per-object
  lock, the pauses of the retry loops, and the calls to the storage collaborator and to
  the persistence-facing methods of the objects. Releases by a destructor at scope exit,
  the shared lock the lookup functions hold while they read, audit events, cache
  invalidation and version tracking are not recorded.
\<close>

datatype event =
    ReadLockInventory
  | WriteLockDataSource
  | WriteUnlockDataSource
  | TryLockObject ref bool
  | WriteLockObject ref
  | UnlockObject ref
  | Sleep
  | CollectionRename ref string error_code
  | ViewRename ref string error_code
  | EngineRenameCollection ref string error_code
  | EngineRenameView ref string error_code
  | EngineChangeCollection ref
  | CollectionUpdateProperties ref error_code
  | EngineDropCollection ref
  | CollectionDrop ref
  | DeferDropCollection ref
  | EngineSignalCleanup
  | ViewDrop ref
  | DropViewCoordinator ref error_code

text \<open>
  The state: the members of \<^verbatim>\<open>TRI_vocbase_t\<close> the modelled code touches
  (\<^verbatim>\<open>_refCount\<close>, the three maps, \<^verbatim>\<open>_collections\<close>, \<^verbatim>\<open>_deadCollections\<close>), whether the
  database is the system database (\<^verbatim>\<open>isSystem()\<close>), the object store and the event log.
\<close>

record vstate =
  refCount :: "64 word"
  vocbaseIsSystem :: bool
  dataSourceByName :: "string \<rightharpoonup> ref"
  dataSourceById :: "nat \<rightharpoonup> ref"
  dataSourceByUuid :: "string \<rightharpoonup> ref"
  collections :: "ref list"
  deadCollections :: "ref list"
  heap :: "ref \<Rightarrow> data_source"
  log :: "event list"

definition logev :: "event \<Rightarrow> vstate \<Rightarrow> vstate" where
  "logev e s = s\<lparr>log := log s @ [e]\<rparr>"

section \<open>The reference counter of a database\<close>

text \<open>
  \<^verbatim>\<open>TRI_vocbase_t::use\<close>: the compare-and-swap loop. The first argument is the number of
  times \<^verbatim>\<open>compare_exchange_weak\<close> fails before it succeeds; after a failure the counter
  is loaded again and the loop repeats.
\<close>

fun use_loop :: "nat \<Rightarrow> 64 word \<Rightarrow> bool \<times> 64 word" where
  "use_loop 0 expected =
     (if expected AND 1 \<noteq> 0 then (False, expected) else (True, expected + 2))"
| "use_loop (Suc n) expected =
     (if expected AND 1 \<noteq> 0 then (False, expected) else use_loop n expected)"

definition use :: "nat \<Rightarrow> vstate \<Rightarrow> bool \<times> vstate" where
  "use failures s =
     (let (r, v) = use_loop failures (refCount s) in (r, s\<lparr>refCount := v\<rparr>))"

text \<open>\<^verbatim>\<open>TRI_vocbase_t::forceUse\<close>.\<close>

definition forceUse :: "vstate \<Rightarrow> vstate" where
  "forceUse s = s\<lparr>refCount := refCount s + 2\<rparr>"

text \<open>
  \<^verbatim>\<open>TRI_vocbase_t::release\<close>: \<^verbatim>\<open>fetch_sub(2)\<close> on the unsigned 64-bit counter. The
  assertion \<^verbatim>\<open>oldValue >= 2\<close> is \<open>release_assertion\<close>; it does not change what the
  function computes.
\<close>

definition release :: "vstate \<Rightarrow> vstate" where
  "release s = s\<lparr>refCount := refCount s - 2\<rparr>"

definition release_assertion :: "vstate \<Rightarrow> bool" where
  "release_assertion s \<longleftrightarrow> 2 \<le> refCount s"

text \<open>\<^verbatim>\<open>TRI_vocbase_t::isDangling\<close>, \<^verbatim>\<open>isDropped\<close> and \<^verbatim>\<open>markAsDropped\<close>.\<close>

definition isDangling :: "vstate \<Rightarrow> bool" where
  "isDangling s = (if vocbaseIsSystem s then False else refCount s = 1)"

definition isDropped :: "vstate \<Rightarrow> bool" where
  "isDropped s \<longleftrightarrow> refCount s mod 2 = 1"

definition markAsDropped :: "vstate \<Rightarrow> bool \<times> vstate" where
  "markAsDropped s =
     (let oldValue = refCount s
      in (oldValue mod 2 = 0, s\<lparr>refCount := oldValue OR 1\<rparr>))"

text \<open>
  A sequence of calls on one handle. Each successful \<^verbatim>\<open>use\<close>, each \<^verbatim>\<open>release\<close> and each
  \<^verbatim>\<open>markAsDropped\<close> is one atomic read-modify-write of the counter, so a concurrent run
  is such a sequence.
\<close>

datatype refcount_call = Use nat | Release | MarkAsDropped

fun call :: "refcount_call \<Rightarrow> vstate \<Rightarrow> vstate" where
  "call (Use failures) s = snd (use failures s)"
| "call Release s = release s"
| "call MarkAsDropped s = snd (markAsDropped s)"

fun calls :: "refcount_call list \<Rightarrow> vstate \<Rightarrow> vstate" where
  "calls [] s = s"
| "calls (c # cs) s = calls cs (call c s)"

text \<open>How many of the \<^verbatim>\<open>use\<close> calls in a sequence return true, and how many calls are releases.\<close>

fun successful_uses :: "refcount_call list \<Rightarrow> vstate \<Rightarrow> nat" where
  "successful_uses [] s = 0"
| "successful_uses (Use failures # cs) s =
     (if fst (use failures s) then 1 else 0) + successful_uses cs (snd (use failures s))"
| "successful_uses (c # cs) s = successful_uses cs (call c s)"

definition releases :: "refcount_call list \<Rightarrow> nat" where
  "releases cs = length (filter (\<lambda>c. c = Release) cs)"

section \<open>The registry of data sources\<close>

text \<open>
  \<^verbatim>\<open>std::unordered_map::emplace\<close> inserts only when the key is absent and says whether it
  inserted; \<^verbatim>\<open>erase\<close> by key removes the entry if there is one; \<^verbatim>\<open>size()\<close> counts the
  keys.
\<close>

definition emplace :: "('k \<rightharpoonup> 'v) \<Rightarrow> 'k \<Rightarrow> 'v \<Rightarrow> ('k \<rightharpoonup> 'v) \<times> bool" where
  "emplace m k v = (case m k of None \<Rightarrow> (m(k \<mapsto> v), True) | Some _ \<Rightarrow> (m, False))"

definition erase :: "('k \<rightharpoonup> 'v) \<Rightarrow> 'k \<Rightarrow> ('k \<rightharpoonup> 'v)" where
  "erase m k = m(k := None)"

definition map_size :: "('k \<rightharpoonup> 'v) \<Rightarrow> nat" where
  "map_size m = card (dom m)"

text \<open>\<^verbatim>\<open>TRI_vocbase_t::checkCollectionInvariants\<close>: the two assertions, as a predicate.\<close>

definition checkCollectionInvariants :: "vstate \<Rightarrow> bool" where
  "checkCollectionInvariants s \<longleftrightarrow>
     map_size (dataSourceByName s) = map_size (dataSourceById s) \<and>
     map_size (dataSourceByUuid s) \<le> map_size (dataSourceById s)"

text \<open>Setters of an object in the store: \<^verbatim>\<open>setStatus\<close>, \<^verbatim>\<open>deleted(bool)\<close>, \<^verbatim>\<open>name(string)\<close>.\<close>

definition setStatus :: "ref \<Rightarrow> TRI_vocbase_col_status_e \<Rightarrow> vstate \<Rightarrow> vstate" where
  "setStatus obj st s = s\<lparr>heap := (heap s)(obj := (heap s obj)\<lparr>ds_status := st\<rparr>)\<rparr>"

definition setDeleted :: "ref \<Rightarrow> bool \<Rightarrow> vstate \<Rightarrow> vstate" where
  "setDeleted obj b s = s\<lparr>heap := (heap s)(obj := (heap s obj)\<lparr>ds_deleted := b\<rparr>)\<rparr>"

definition setName :: "ref \<Rightarrow> string \<Rightarrow> vstate \<Rightarrow> vstate" where
  "setName obj n s = s\<lparr>heap := (heap s)(obj := (heap s obj)\<lparr>ds_name := n\<rparr>)\<rparr>"

text \<open>
  \<^verbatim>\<open>TRI_vocbase_t::registerCollection\<close>. \<open>Inl e\<close> is the exception with code \<open>e\<close> leaving
  the function. The \<^verbatim>\<open>catch (...)\<close> blocks run the erasures written there before the
  exception is thrown again. An allocation failure of \<^verbatim>\<open>emplace_back\<close> is not modelled.
\<close>

definition registerCollection :: "bool \<Rightarrow> ref \<Rightarrow> vstate \<Rightarrow> (error_code + unit) \<times> vstate" where
  "registerCollection doLock collection s =
     (let name = ds_name (heap s collection);
          cid = ds_id (heap s collection);
          s0 = (if doLock then logev WriteLockDataSource s else s);
          (byName, inserted) = emplace (dataSourceByName s0) name collection
      in if \<not> inserted then (Inl TRI_ERROR_ARANGO_DUPLICATE_NAME, s0)
         else
           let s1 = s0\<lparr>dataSourceByName := byName\<rparr>;
               (byId, inserted2) = emplace (dataSourceById s1) cid collection
           in if \<not> inserted2 then
                (Inl TRI_ERROR_ARANGO_DUPLICATE_IDENTIFIER,
                 s1\<lparr>dataSourceByName := erase (dataSourceByName s1) name\<rparr>)
              else
                let s2 = s1\<lparr>dataSourceById := byId\<rparr>;
                    uuid = ds_globallyUniqueId (heap s2 collection);
                    (byUuid, inserted3) = emplace (dataSourceByUuid s2) uuid collection
                in if \<not> inserted3 then
                     (Inl TRI_ERROR_ARANGO_DUPLICATE_IDENTIFIER,
                      s2\<lparr>dataSourceByName := erase (dataSourceByName s2) name,
                         dataSourceById := erase (dataSourceById s2) cid\<rparr>)
                   else
                     (Inr (),
                      setStatus collection TRI_VOC_COL_STATUS_UNLOADED
                        (s2\<lparr>dataSourceByUuid := byUuid,
                            collections := collections s2 @ [collection]\<rparr>)))"

text \<open>\<^verbatim>\<open>TRI_vocbase_t::unregisterCollection\<close>.\<close>

definition unregisterCollection :: "ref \<Rightarrow> vstate \<Rightarrow> bool \<times> vstate" where
  "unregisterCollection collection s =
     (case dataSourceById s (ds_id (heap s collection)) of
        None \<Rightarrow> (True, s)
      | Some found \<Rightarrow>
          if ds_category (heap s found) \<noteq> Collection then (True, s)
          else
            (True,
             s\<lparr>dataSourceById := erase (dataSourceById s) (ds_id (heap s collection)),
               dataSourceByName := erase (dataSourceByName s) (ds_name (heap s collection)),
               dataSourceByUuid :=
                 erase (dataSourceByUuid s) (ds_globallyUniqueId (heap s collection))\<rparr>))"

text \<open>
  \<^verbatim>\<open>TRI_vocbase_t::registerView\<close>. On a duplicate id the name is erased inside the
  \<^verbatim>\<open>if\<close> and once more by the \<^verbatim>\<open>catch (...)\<close> block the exception passes through.
\<close>

definition registerView :: "bool \<Rightarrow> ref \<Rightarrow> vstate \<Rightarrow> (error_code + unit) \<times> vstate" where
  "registerView doLock view s =
     (let name = ds_name (heap s view);
          vid = ds_id (heap s view);
          s0 = (if doLock then logev WriteLockDataSource s else s);
          (byName, inserted) = emplace (dataSourceByName s0) name view
      in if \<not> inserted then (Inl TRI_ERROR_ARANGO_DUPLICATE_NAME, s0)
         else
           let s1 = s0\<lparr>dataSourceByName := byName\<rparr>;
               (byId, inserted2) = emplace (dataSourceById s1) vid view
           in if \<not> inserted2 then
                (Inl TRI_ERROR_ARANGO_DUPLICATE_IDENTIFIER,
                 s1\<lparr>dataSourceByName := erase (erase (dataSourceByName s1) name) name\<rparr>)
              else (Inr (), s1\<lparr>dataSourceById := byId\<rparr>))"

text \<open>\<^verbatim>\<open>TRI_vocbase_t::unregisterView\<close>.\<close>

definition unregisterView :: "ref \<Rightarrow> vstate \<Rightarrow> bool \<times> vstate" where
  "unregisterView view s =
     (case dataSourceById s (ds_id (heap s view)) of
        None \<Rightarrow> (True, s)
      | Some found \<Rightarrow>
          if ds_category (heap s found) \<noteq> View then (True, s)
          else
            (True,
             s\<lparr>dataSourceById := erase (dataSourceById s) (ds_id (heap s view)),
               dataSourceByName := erase (dataSourceByName s) (ds_name (heap s view))\<rparr>))"

text \<open>Whether one of the three maps holds an entry whose value is the given object.\<close>

definition registered :: "ref \<Rightarrow> vstate \<Rightarrow> bool" where
  "registered obj s \<longleftrightarrow>
     obj \<in> ran (dataSourceByName s) \<or> obj \<in> ran (dataSourceById s) \<or>
     obj \<in> ran (dataSourceByUuid s)"

section \<open>Names\<close>

text \<open>
  \<^verbatim>\<open>TRI_vocbase_t::IsAllowedName(bool, StringRef)\<close>. The loop walks the characters with
  their position and returns false at the first one that is not allowed; the length is
  checked afterwards. \<^verbatim>\<open>TRI_COL_NAME_LENGTH\<close> is not defined in the sources and is a
  parameter.
\<close>

definition is_lower :: "char \<Rightarrow> bool" where
  "is_lower c \<longleftrightarrow> (97::nat) \<le> of_char c \<and> of_char c \<le> (122::nat)"

definition is_upper :: "char \<Rightarrow> bool" where
  "is_upper c \<longleftrightarrow> (65::nat) \<le> of_char c \<and> of_char c \<le> (90::nat)"

definition is_digit :: "char \<Rightarrow> bool" where
  "is_digit c \<longleftrightarrow> (48::nat) \<le> of_char c \<and> of_char c \<le> (57::nat)"

fun allowed_chars :: "bool \<Rightarrow> nat \<Rightarrow> string \<Rightarrow> bool" where
  "allowed_chars allowSystem len [] = True"
| "allowed_chars allowSystem len (c # rest) =
     (let ok =
        (if len = 0 then
           (if allowSystem then c = CHR ''_'' \<or> is_lower c \<or> is_upper c
            else is_lower c \<or> is_upper c)
         else c = CHR ''_'' \<or> c = CHR ''-'' \<or> is_digit c \<or> is_lower c \<or> is_upper c)
      in if \<not> ok then False else allowed_chars allowSystem (len + 1) rest)"

definition IsAllowedName :: "nat \<Rightarrow> bool \<Rightarrow> string \<Rightarrow> bool" where
  "IsAllowedName TRI_COL_NAME_LENGTH allowSystem name =
     (if \<not> allowed_chars allowSystem 0 name then False
      else if length name = 0 \<or> length name > TRI_COL_NAME_LENGTH then False
      else True)"

text \<open>\<^verbatim>\<open>TRI_vocbase_t::IsSystemName\<close>.\<close>

definition IsSystemName :: "string \<Rightarrow> bool" where
  "IsSystemName name = (case name of [] \<Rightarrow> False | c # _ \<Rightarrow> c = CHR ''_'')"

section \<open>The surroundings\<close>

text \<open>
  What the code asks of the process, of the machine and of helpers that are not among
  the sources: the constant \<^verbatim>\<open>TRI_COL_NAME_LENGTH\<close>, \<^verbatim>\<open>ServerState::isCoordinator()\<close>,
  \<^verbatim>\<open>StorageEngine::inRecovery()\<close>, \<^verbatim>\<open>NumberUtils::atoi\<close> (the number a string denotes, if
  it denotes one), \<^verbatim>\<open>ClusterInfo::getView\<close>, and the addition of two values of type
  \<^verbatim>\<open>double\<close>.

  A finite \<^verbatim>\<open>double\<close> is a real number, and the comparisons \<^verbatim>\<open>>\<close> and \<^verbatim>\<open>>=\<close> of finite
  doubles are those of the reals. The sum of two doubles is rounded by the machine, so
  it is not the sum of the reals: \<open>double_add\<close> is the machine's \<^verbatim>\<open>+\<close>, whatever it rounds
  to.
\<close>

record config =
  colNameLength :: nat
  isCoordinator :: bool
  inRecovery :: bool
  atoi :: "string \<Rightarrow> nat option"
  getView :: "string \<Rightarrow> ref option"
  double_add :: "real \<Rightarrow> real \<Rightarrow> real"

section \<open>Lookup\<close>

text \<open>
  \<^verbatim>\<open>lookupDataSource(TRI_voc_cid_t)\<close>, \<^verbatim>\<open>lookupDataSource(std::string const&)\<close> and
  \<^verbatim>\<open>lookupView(std::string const&)\<close>. They read the maps under a shared lock and change
  nothing.
\<close>

definition lookupDataSource_id :: "nat \<Rightarrow> vstate \<Rightarrow> ref option" where
  "lookupDataSource_id i s = dataSourceById s i"

definition lookupDataSource :: "config \<Rightarrow> string \<Rightarrow> vstate \<Rightarrow> ref option" where
  "lookupDataSource cfg nameOrId s =
     (if nameOrId = [] then None
      else case atoi cfg nameOrId of
        Some i \<Rightarrow> lookupDataSource_id i s
      | None \<Rightarrow>
          (case dataSourceByName s nameOrId of
             Some obj \<Rightarrow> Some obj
           | None \<Rightarrow> dataSourceByUuid s nameOrId))"

definition lookupView :: "config \<Rightarrow> string \<Rightarrow> vstate \<Rightarrow> ref option" where
  "lookupView cfg nameOrId s =
     (if isCoordinator cfg then getView cfg nameOrId
      else case lookupDataSource cfg nameOrId s of
        None \<Rightarrow> None
      | Some obj \<Rightarrow> if ds_category (heap s obj) = View then Some obj else None)"

section \<open>Taking the data-source lock and an object's lock\<close>

text \<open>
  The loop at the head of \<^verbatim>\<open>renameCollection\<close> and of \<^verbatim>\<open>dropView\<close>: block for the
  data-source write lock, try the object's lock, and on failure release the first lock,
  sleep and start over. The list gives the outcome of each \<^verbatim>\<open>tryLock\<close> in turn. The loop
  has no exit but success: \<open>None\<close> says that it never gets the lock.
\<close>

fun lock_loop :: "ref \<Rightarrow> bool list \<Rightarrow> vstate \<Rightarrow> vstate option" where
  "lock_loop obj [] s = None"
| "lock_loop obj (locked # rest) s =
     (if locked then Some (logev (TryLockObject obj True) (logev WriteLockDataSource s))
      else lock_loop obj rest
             (logev Sleep (logev WriteUnlockDataSource
                (logev (TryLockObject obj False) (logev WriteLockDataSource s)))))"

section \<open>Rename\<close>

text \<open>
  What a rename meets on its way: the outcomes of the \<^verbatim>\<open>tryLock\<close> calls; what the
  object's own \<^verbatim>\<open>rename\<close> does (\<^verbatim>\<open>LogicalCollection::rename\<close> and \<^verbatim>\<open>LogicalView::rename\<close>
  are not among the sources), namely the result it returns and the name the object
  carries when it has returned; and the result of the storage engine's
  \<^verbatim>\<open>renameCollection\<close> or \<^verbatim>\<open>renameView\<close>.
\<close>

record rename_env =
  tryLocks :: "bool list"
  rename_result :: error_code
  name_after_rename :: string
  engine_result :: error_code

text \<open>The effect of the object's own \<^verbatim>\<open>rename\<close> on the store, as the surroundings give it.\<close>

definition object_rename :: "ref \<Rightarrow> rename_env \<Rightarrow> vstate \<Rightarrow> vstate" where
  "object_rename obj env s = setName obj (name_after_rename env) s"

text \<open>\<^verbatim>\<open>TRI_vocbase_t::renameView\<close>.\<close>

definition renameView ::
  "config \<Rightarrow> rename_env \<Rightarrow> ref \<Rightarrow> string \<Rightarrow> vstate \<Rightarrow> (error_code \<times> vstate) option" where
  "renameView cfg env view newName s =
     (let oldName = ds_name (heap s view)
      in if oldName = newName then Some (TRI_ERROR_NO_ERROR, s)
         else if \<not> IsAllowedName (colNameLength cfg) (IsSystemName newName) newName
           then Some (TRI_ERROR_ARANGO_ILLEGAL_NAME, s)
         else
           let s1 = logev WriteLockDataSource (logev ReadLockInventory s)
           in if dataSourceByName s1 newName \<noteq> None
                then Some (TRI_ERROR_ARANGO_DUPLICATE_NAME, s1)
              else
                (case dataSourceByName s1 oldName of
                   None \<Rightarrow> Some (TRI_ERROR_ARANGO_DATA_SOURCE_NOT_FOUND, s1)
                 | Some found \<Rightarrow>
                     if View = ds_category (heap s1 found)
                       then Some (TRI_ERROR_ARANGO_DATA_SOURCE_NOT_FOUND, s1)
                     else
                       let s2 = s1\<lparr>dataSourceByName :=
                                   fst (emplace (dataSourceByName s1) newName view)\<rparr>;
                           s3 = s2\<lparr>dataSourceByName := erase (dataSourceByName s2) oldName\<rparr>;
                           res = rename_result env;
                           s4 = logev (ViewRename view newName res)
                                  (object_rename view env s3)
                       in if res \<noteq> TRI_ERROR_NO_ERROR then Some (res, s4)
                          else
                            let res2 = engine_result env
                            in Some (res2, logev (EngineRenameView view oldName res2) s4)))"

text \<open>
  \<^verbatim>\<open>TRI_vocbase_t::renameCollection\<close>. The statement under
  \<^verbatim>\<open>if (!res.ok())\<close> is the expression \<^verbatim>\<open>res.errorNumber();\<close>, which has no effect, so both
  outcomes of the object's \<^verbatim>\<open>rename\<close> continue with the swap of the keys.
\<close>

definition renameCollection ::
  "config \<Rightarrow> rename_env \<Rightarrow> ref \<Rightarrow> string \<Rightarrow> bool \<Rightarrow> vstate \<Rightarrow> (error_code \<times> vstate) option"
  where
  "renameCollection cfg env collection newName doOverride s =
     (if ds_isSystem (heap s collection) then Some (TRI_ERROR_FORBIDDEN, s)
      else
        let oldName = ds_name (heap s collection)
        in if oldName = newName then Some (TRI_ERROR_NO_ERROR, s)
           else if \<not> doOverride \<and>
                   (let isSystem = IsSystemName oldName
                    in (isSystem \<and> \<not> IsSystemName newName) \<or>
                       (\<not> isSystem \<and> IsSystemName newName) \<or>
                       \<not> IsAllowedName (colNameLength cfg) isSystem newName)
             then Some (TRI_ERROR_ARANGO_ILLEGAL_NAME, s)
           else
             (case lock_loop collection (tryLocks env) (logev ReadLockInventory s) of
                None \<Rightarrow> None
              | Some s1 \<Rightarrow>
                  if dataSourceByName s1 newName \<noteq> None
                    then Some (TRI_ERROR_ARANGO_DUPLICATE_NAME, s1)
                  else
                    (case dataSourceByName s1 oldName of
                       None \<Rightarrow> Some (TRI_ERROR_ARANGO_DATA_SOURCE_NOT_FOUND, s1)
                     | Some found \<Rightarrow>
                         if Collection \<noteq> ds_category (heap s1 found)
                           then Some (TRI_ERROR_ARANGO_DATA_SOURCE_NOT_FOUND, s1)
                         else
                           let res = rename_result env;
                               s2 = logev (CollectionRename collection newName res)
                                      (object_rename collection env s1);
                               s3 = s2\<lparr>dataSourceByName :=
                                       fst (emplace (dataSourceByName s2) newName found)\<rparr>;
                               s4 = s3\<lparr>dataSourceByName :=
                                       erase (dataSourceByName s3) oldName\<rparr>;
                               s5 = logev WriteUnlockDataSource
                                      (logev (UnlockObject collection) s4);
                               res2 = engine_result env
                           in Some (res2,
                                logev (EngineRenameCollection collection oldName res2) s5))))"

section \<open>Drop\<close>

text \<open>
  \<^verbatim>\<open>TRI_vocbase_t::DropCollectionCallback\<close>: the status is read under the collection's
  write lock; the collection is moved to the dead list under the data-source write lock;
  then \<^verbatim>\<open>collection->drop()\<close>.
\<close>

definition DropCollectionCallback :: "ref \<Rightarrow> vstate \<Rightarrow> bool \<times> vstate" where
  "DropCollectionCallback collection s =
     (let s0 = logev (WriteLockObject collection) s
      in if ds_status (heap s0 collection) \<noteq> TRI_VOC_COL_STATUS_DELETED then (False, s0)
         else
           let s1 = logev WriteLockDataSource s0;
               s2 = (if collection \<in> set (collections s1)
                     then s1\<lparr>collections := remove1 collection (collections s1),
                             deadCollections := deadCollections s1 @ [collection]\<rparr>
                     else s1)
           in (True, logev (CollectionDrop collection) s2))"

text \<open>
  What one run of \<^verbatim>\<open>dropCollectionWorker\<close> meets: the clock at entry, for each turn of the
  locking loop the outcome of \<^verbatim>\<open>tryLock\<close> and the clock read after a failed one, how
  \<^verbatim>\<open>engine->changeCollection\<close> ends, and the result of \<^verbatim>\<open>updateProperties\<close>. The clock is
  \<^verbatim>\<open>TRI_microtime()\<close>, a finite \<^verbatim>\<open>double\<close> of seconds.
\<close>

datatype change_outcome =
    ChangeReturns
  | ChangeThrowsArango error_code
  | ChangeThrowsStd

record drop_attempt =
  startTime :: real
  polls :: "(bool \<times> real) list"
  changeCollection_outcome :: change_outcome
  updateProperties_result :: error_code

datatype DropState = DROP_EXIT | DROP_AGAIN | DROP_PERFORM

text \<open>
  The locking loop of \<^verbatim>\<open>dropCollectionWorker\<close>. \<open>Some (True, s)\<close>: both locks are held;
  \<open>Some (False, s)\<close>: the timeout has passed after a failed \<^verbatim>\<open>tryLock\<close>; \<open>None\<close>: the loop
  never leaves. The test is \<^verbatim>\<open>timeout >= 0.0 && TRI_microtime() > startTime + timeout\<close>, with
  the sum as the machine computes it. A timeout that is infinite or not a number, which
  no real number stands for, never makes the test true.
\<close>

fun drop_lock_loop ::
  "config \<Rightarrow> ref \<Rightarrow> real \<Rightarrow> real \<Rightarrow> (bool \<times> real) list \<Rightarrow> vstate
     \<Rightarrow> (bool \<times> vstate) option" where
  "drop_lock_loop cfg obj start timeout [] s = None"
| "drop_lock_loop cfg obj start timeout ((locked, now) # rest) s =
     (if locked then Some (True, logev (TryLockObject obj True) (logev WriteLockDataSource s))
      else
        let s1 = logev WriteUnlockDataSource
                   (logev (TryLockObject obj False) (logev WriteLockDataSource s))
        in if timeout \<ge> 0 \<and> now > double_add cfg start timeout then Some (False, s1)
           else drop_lock_loop cfg obj start timeout rest (logev Sleep s1))"

text \<open>
  The tail shared by the \<^verbatim>\<open>UNLOADED\<close> case once the marker is persisted: status
  \<^verbatim>\<open>DELETED\<close>, unregister, release both locks, \<^verbatim>\<open>engine->dropCollection\<close>,
  \<^verbatim>\<open>DropCollectionCallback\<close>.
\<close>

definition drop_unloaded_finish :: "ref \<Rightarrow> vstate \<Rightarrow> vstate" where
  "drop_unloaded_finish collection s =
     (let s1 = setStatus collection TRI_VOC_COL_STATUS_DELETED s;
          s2 = snd (unregisterCollection collection s1);
          s3 = logev WriteUnlockDataSource (logev (UnlockObject collection) s2);
          s4 = logev (EngineDropCollection collection) s3
      in snd (DropCollectionCallback collection s4))"

text \<open>The case \<^verbatim>\<open>TRI_VOC_COL_STATUS_UNLOADED\<close> of the switch.\<close>

definition drop_unloaded ::
  "drop_attempt \<Rightarrow> ref \<Rightarrow> vstate \<Rightarrow> error_code \<times> DropState \<times> vstate" where
  "drop_unloaded a collection s =
     (if \<not> ds_deleted (heap s collection) then
        let s1 = logev (EngineChangeCollection collection) (setDeleted collection True s)
        in (case changeCollection_outcome a of
              ChangeThrowsArango code \<Rightarrow> (code, DROP_EXIT, setDeleted collection False s1)
            | ChangeThrowsStd \<Rightarrow> (TRI_ERROR_INTERNAL, DROP_EXIT, setDeleted collection False s1)
            | ChangeReturns \<Rightarrow>
                (TRI_ERROR_NO_ERROR, DROP_EXIT, drop_unloaded_finish collection s1))
      else (TRI_ERROR_NO_ERROR, DROP_EXIT, drop_unloaded_finish collection s))"

text \<open>The cases \<^verbatim>\<open>TRI_VOC_COL_STATUS_LOADED\<close> and \<^verbatim>\<open>TRI_VOC_COL_STATUS_UNLOADING\<close>.\<close>

definition drop_loaded ::
  "drop_attempt \<Rightarrow> ref \<Rightarrow> vstate \<Rightarrow> error_code \<times> DropState \<times> vstate" where
  "drop_loaded a collection s =
     (let s1 = setDeleted collection True s;
          res = updateProperties_result a;
          s2 = logev (CollectionUpdateProperties collection res) s1
      in if res \<noteq> TRI_ERROR_NO_ERROR then (res, DROP_EXIT, s2)
         else
           let s3 = setStatus collection TRI_VOC_COL_STATUS_DELETED s2;
               s4 = snd (unregisterCollection collection s3);
               s5 = logev WriteUnlockDataSource (logev (UnlockObject collection) s4);
               s6 = logev (EngineDropCollection collection) s5
           in (TRI_ERROR_NO_ERROR, DROP_PERFORM, s6))"

text \<open>\<^verbatim>\<open>TRI_vocbase_t::dropCollectionWorker\<close>.\<close>

definition dropCollectionWorker ::
  "config \<Rightarrow> drop_attempt \<Rightarrow> ref \<Rightarrow> real \<Rightarrow> vstate
     \<Rightarrow> (error_code \<times> DropState \<times> vstate) option" where
  "dropCollectionWorker cfg a collection timeout s =
     (case drop_lock_loop cfg collection (startTime a) timeout (polls a) s of
        None \<Rightarrow> None
      | Some (False, s1) \<Rightarrow> Some (TRI_ERROR_LOCK_TIMEOUT, DROP_EXIT, s1)
      | Some (True, s1) \<Rightarrow>
          (case ds_status (heap s1 collection) of
             TRI_VOC_COL_STATUS_DELETED \<Rightarrow>
               Some (TRI_ERROR_NO_ERROR, DROP_EXIT, snd (unregisterCollection collection s1))
           | TRI_VOC_COL_STATUS_LOADING \<Rightarrow> Some (TRI_ERROR_NO_ERROR, DROP_AGAIN, s1)
           | TRI_VOC_COL_STATUS_UNLOADED \<Rightarrow> Some (drop_unloaded a collection s1)
           | TRI_VOC_COL_STATUS_LOADED \<Rightarrow> Some (drop_loaded a collection s1)
           | TRI_VOC_COL_STATUS_UNLOADING \<Rightarrow> Some (drop_loaded a collection s1)
           | TRI_VOC_COL_STATUS_CORRUPTED \<Rightarrow> Some (TRI_ERROR_INTERNAL, DROP_EXIT, s1)))"

text \<open>
  \<^verbatim>\<open>TRI_vocbase_t::dropCollection\<close>: the guard for system collections, then the loop that
  runs the worker until it does not ask to be run again. The list holds what each run of
  the worker meets; \<open>None\<close> says that the call does not return on it.
\<close>

fun dropCollection_loop ::
  "config \<Rightarrow> ref \<Rightarrow> real \<Rightarrow> drop_attempt list \<Rightarrow> vstate \<Rightarrow> (error_code \<times> vstate) option" where
  "dropCollection_loop cfg collection timeout [] s = None"
| "dropCollection_loop cfg collection timeout (a # rest) s =
     (case dropCollectionWorker cfg a collection timeout (logev ReadLockInventory s) of
        None \<Rightarrow> None
      | Some (res, state, s1) \<Rightarrow>
          let s2 = (if state = DROP_PERFORM then
                      (if inRecovery cfg then snd (DropCollectionCallback collection s1)
                       else logev EngineSignalCleanup
                              (logev (DeferDropCollection collection) s1))
                    else s1)
          in if state = DROP_PERFORM \<or> state = DROP_EXIT then Some (res, s2)
             else dropCollection_loop cfg collection timeout rest (logev Sleep s2))"

definition dropCollection ::
  "config \<Rightarrow> ref \<Rightarrow> bool \<Rightarrow> real \<Rightarrow> drop_attempt list \<Rightarrow> vstate \<Rightarrow> (error_code \<times> vstate) option"
  where
  "dropCollection cfg collection allowDropSystem timeout attempts s =
     (if \<not> allowDropSystem \<and> ds_isSystem (heap s collection) \<and> \<not> inRecovery cfg
        then Some (TRI_ERROR_FORBIDDEN, s)
      else dropCollection_loop cfg collection timeout attempts s)"

text \<open>
  What \<^verbatim>\<open>dropView\<close> meets: the outcomes of the \<^verbatim>\<open>tryLock\<close> calls and, on a coordinator, the
  result of \<^verbatim>\<open>ClusterInfo::dropViewCoordinator\<close>.
\<close>

record drop_view_env =
  view_tryLocks :: "bool list"
  dropViewCoordinator_result :: error_code

text \<open>\<^verbatim>\<open>TRI_vocbase_t::dropView(std::shared_ptr<LogicalView>)\<close>.\<close>

definition dropView ::
  "config \<Rightarrow> drop_view_env \<Rightarrow> ref \<Rightarrow> vstate \<Rightarrow> (error_code \<times> vstate) option" where
  "dropView cfg env view s =
     (if isCoordinator cfg then
        let res = dropViewCoordinator_result env
        in Some (res, logev (DropViewCoordinator view res) s)
      else
        (case lock_loop view (view_tryLocks env) (logev ReadLockInventory s) of
           None \<Rightarrow> None
         | Some s1 \<Rightarrow>
             let s2 = logev (ViewDrop view) s1;
                 s3 = snd (unregisterView view s2);
                 s4 = logev WriteUnlockDataSource (logev (UnlockObject view) s3)
             in Some (TRI_ERROR_NO_ERROR, s4)))"

text \<open>\<^verbatim>\<open>TRI_vocbase_t::dropView(std::string const&)\<close>.\<close>

definition dropView_name ::
  "config \<Rightarrow> drop_view_env \<Rightarrow> string \<Rightarrow> vstate \<Rightarrow> (error_code \<times> vstate) option" where
  "dropView_name cfg env name s =
     (case lookupView cfg name s of
        None \<Rightarrow> Some (TRI_ERROR_ARANGO_DATA_SOURCE_NOT_FOUND, s)
      | Some view \<Rightarrow> dropView cfg env view s)"

section \<open>Notions used in the statements\<close>

text \<open>Two states that differ at most in the event log.\<close>

definition same_except_log :: "vstate \<Rightarrow> vstate \<Rightarrow> bool" where
  "same_except_log s s' \<longleftrightarrow> s' = s\<lparr>log := log s'\<rparr>"

text \<open>
  An object is not present in the registry as a data source of the given category: there
  is no entry under its id, or the entry found there has a different category.
\<close>

definition not_present :: "category \<Rightarrow> ref \<Rightarrow> vstate \<Rightarrow> bool" where
  "not_present cat obj s =
     (case dataSourceById s (ds_id (heap s obj)) of
        None \<Rightarrow> True
      | Some found \<Rightarrow> ds_category (heap s found) \<noteq> cat)"

text \<open>
  During one run of the worker the timeout expires while the object's lock is contended:
  every \<^verbatim>\<open>tryLock\<close> fails up to a turn whose clock reading is greater than the sum, as the
  machine computes it, of the start time and the timeout.
\<close>

fun expires_while_contended :: "config \<Rightarrow> real \<Rightarrow> real \<Rightarrow> (bool \<times> real) list \<Rightarrow> bool" where
  "expires_while_contended cfg start timeout [] = False"
| "expires_while_contended cfg start timeout ((locked, now) # rest) =
     (\<not> locked \<and>
      (now > double_add cfg start timeout \<or> expires_while_contended cfg start timeout rest))"

text \<open>During one run of the worker a \<^verbatim>\<open>tryLock\<close> succeeds before the timeout has expired.\<close>

fun acquires_locks :: "config \<Rightarrow> real \<Rightarrow> real \<Rightarrow> (bool \<times> real) list \<Rightarrow> bool" where
  "acquires_locks cfg start timeout [] = False"
| "acquires_locks cfg start timeout ((locked, now) # rest) =
     (locked \<or>
      (\<not> (timeout \<ge> 0 \<and> now > double_add cfg start timeout) \<and>
       acquires_locks cfg start timeout rest))"

section \<open>Example objects and states\<close>

text \<open>
  Objects: the collection \<open>a\<close> at reference \<open>1\<close> (and at every reference not listed
  here), the collection \<open>2\<close> (\<open>b\<close>, with the uuid of \<open>1\<close>), the view \<open>3\<close> (\<open>v\<close>, with the
  id of \<open>1\<close>), the view \<open>4\<close> (\<open>w\<close>), the system collection \<open>5\<close> (\<open>_users\<close>) and the
  collection \<open>6\<close> (\<open>c\<close>), which is being loaded.
\<close>

definition example_heap :: "ref \<Rightarrow> data_source" where
  "example_heap =
     (\<lambda>_. \<lparr>ds_category = Collection, ds_id = 1, ds_name = ''a'',
            ds_globallyUniqueId = ''u1'', ds_isSystem = False,
            ds_status = TRI_VOC_COL_STATUS_LOADED, ds_deleted = False\<rparr>)
     (2 := \<lparr>ds_category = Collection, ds_id = 2, ds_name = ''b'',
            ds_globallyUniqueId = ''u1'', ds_isSystem = False,
            ds_status = TRI_VOC_COL_STATUS_UNLOADED, ds_deleted = False\<rparr>,
      3 := \<lparr>ds_category = View, ds_id = 1, ds_name = ''v'',
            ds_globallyUniqueId = [], ds_isSystem = False,
            ds_status = TRI_VOC_COL_STATUS_UNLOADED, ds_deleted = False\<rparr>,
      4 := \<lparr>ds_category = View, ds_id = 4, ds_name = ''w'',
            ds_globallyUniqueId = [], ds_isSystem = False,
            ds_status = TRI_VOC_COL_STATUS_UNLOADED, ds_deleted = False\<rparr>,
      5 := \<lparr>ds_category = Collection, ds_id = 5, ds_name = ''_users'',
            ds_globallyUniqueId = ''u5'', ds_isSystem = True,
            ds_status = TRI_VOC_COL_STATUS_LOADED, ds_deleted = False\<rparr>,
      6 := \<lparr>ds_category = Collection, ds_id = 6, ds_name = ''c'',
            ds_globallyUniqueId = ''u6'', ds_isSystem = False,
            ds_status = TRI_VOC_COL_STATUS_LOADING, ds_deleted = False\<rparr>)"

text \<open>A database just constructed (\<^verbatim>\<open>_refCount(0)\<close>, empty maps), with the objects above.\<close>

definition fresh_database :: vstate where
  "fresh_database =
     \<lparr>refCount = 0, vocbaseIsSystem = False, dataSourceByName = Map.empty,
      dataSourceById = Map.empty, dataSourceByUuid = Map.empty, collections = [],
      deadCollections = [], heap = example_heap, log = []\<rparr>"

text \<open>The same database with collection \<open>1\<close>, view \<open>4\<close> and collections \<open>5\<close> and \<open>6\<close> registered.\<close>

definition example_database :: vstate where
  "example_database =
     fresh_database
       \<lparr>dataSourceByName := [''a'' \<mapsto> 1, ''w'' \<mapsto> 4, ''_users'' \<mapsto> 5, ''c'' \<mapsto> 6],
        dataSourceById := [1 \<mapsto> 1, 4 \<mapsto> 4, 5 \<mapsto> 5, 6 \<mapsto> 6],
        dataSourceByUuid := [''u1'' \<mapsto> 1, ''u5'' \<mapsto> 5, ''u6'' \<mapsto> 6],
        collections := [1, 5, 6]\<rparr>"

text \<open>
  A stand-in for \<^verbatim>\<open>NumberUtils::atoi\<close> in the examples: a string of decimal digits
  denotes its number, any other string none.
\<close>

fun example_digits :: "nat \<Rightarrow> string \<Rightarrow> nat option" where
  "example_digits acc [] = Some acc"
| "example_digits acc (c # rest) =
     (if is_digit c then example_digits (10 * acc + (of_char c - 48)) rest else None)"

definition example_atoi :: "string \<Rightarrow> nat option" where
  "example_atoi str = (if str = [] then None else example_digits 0 str)"

text \<open>
  A stand-in for the machine's addition of doubles in the examples: the sum of the
  reals. The doubles added in the examples are integers below \<open>2 ^ 53\<close>, as is their sum,
  and the machine adds those without rounding.
\<close>

definition example_double_add :: "real \<Rightarrow> real \<Rightarrow> real" where
  "example_double_add x y = x + y"

definition example_config :: config where
  "example_config =
     \<lparr>colNameLength = 64, isCoordinator = False, inRecovery = False,
      atoi = example_atoi, getView = (\<lambda>_. None), double_add = example_double_add\<rparr>"

text \<open>
  A rename of an object called \<open>a\<close> to \<open>b\<close> whose locks are free at once and whose
  persistence-facing call fails, leaving the object its name \<open>a\<close>.
\<close>

definition failing_rename :: rename_env where
  "failing_rename =
     \<lparr>tryLocks = [True], rename_result = TRI_ERROR_INTERNAL,
      name_after_rename = ''a'', engine_result = TRI_ERROR_NO_ERROR\<rparr>"

text \<open>A rename to \<open>x\<close> whose locks are free at once and whose calls all succeed.\<close>

definition smooth_rename :: rename_env where
  "smooth_rename =
     \<lparr>tryLocks = [True], rename_result = TRI_ERROR_NO_ERROR,
      name_after_rename = ''x'', engine_result = TRI_ERROR_NO_ERROR\<rparr>"

text \<open>
  The states of a run from the fresh database: collection \<open>1\<close> registered; then renamed
  to \<open>b\<close> with \<open>failing_rename\<close>; then unregistered.
\<close>

definition after_register :: vstate where
  "after_register =
     fresh_database
       \<lparr>dataSourceByName := [''a'' \<mapsto> 1], dataSourceById := [1 \<mapsto> 1],
        dataSourceByUuid := [''u1'' \<mapsto> 1], collections := [1],
        heap := example_heap
          (1 := (example_heap 1)\<lparr>ds_status := TRI_VOC_COL_STATUS_UNLOADED\<rparr>)\<rparr>"

definition after_failed_rename :: vstate where
  "after_failed_rename =
     after_register
       \<lparr>dataSourceByName := [''b'' \<mapsto> 1],
        log := [ReadLockInventory, WriteLockDataSource, TryLockObject 1 True,
                CollectionRename 1 ''b'' TRI_ERROR_INTERNAL, UnlockObject 1,
                WriteUnlockDataSource, EngineRenameCollection 1 ''a'' TRI_ERROR_NO_ERROR]\<rparr>"

definition after_unregister :: vstate where
  "after_unregister =
     after_failed_rename\<lparr>dataSourceById := Map.empty, dataSourceByUuid := Map.empty\<rparr>"

text \<open>A run of the drop worker that gets its locks at once and persists without error.\<close>

definition smooth_attempt :: drop_attempt where
  "smooth_attempt =
     \<lparr>startTime = 0, polls = [(True, 0)], changeCollection_outcome = ChangeReturns,
      updateProperties_result = TRI_ERROR_NO_ERROR\<rparr>"

text \<open>A run that gets its locks at once and whose persistence step fails.\<close>

definition failing_attempt :: drop_attempt where
  "failing_attempt =
     \<lparr>startTime = 0, polls = [(True, 0)],
      changeCollection_outcome = ChangeThrowsArango (TRI_ERROR_OTHER 1),
      updateProperties_result = TRI_ERROR_OTHER 1\<rparr>"

text \<open>
  A run that starts at time 10 and finds the object's lock taken at times 11 and 13;
  with a timeout of 2 the second reading is too late.
\<close>

definition contended_attempt :: drop_attempt where
  "contended_attempt =
     \<lparr>startTime = 10, polls = [(False, 11), (False, 13), (True, 14)],
      changeCollection_outcome = ChangeReturns,
      updateProperties_result = TRI_ERROR_NO_ERROR\<rparr>"

definition free_view_locks :: drop_view_env where
  "free_view_locks =
     \<lparr>view_tryLocks = [True], dropViewCoordinator_result = TRI_ERROR_NO_ERROR\<rparr>"

section \<open>Unfolding the examples\<close>

lemmas example_defs =
  example_database_def fresh_database_def example_heap_def example_config_def
  failing_rename_def smooth_rename_def smooth_attempt_def failing_attempt_def
  contended_attempt_def free_view_locks_def example_atoi_def example_double_add_def
  after_register_def after_failed_rename_def after_unregister_def

lemmas name_defs = IsSystemName_def IsAllowedName_def is_lower_def is_upper_def is_digit_def

section \<open>The reference counter\<close>

lemma and1_add2: "(v + 2) AND 1 = v AND (1::64 word)"
  by (simp add: and_one_eq mod2_eq_if)
lemma and1_sub2: "(v - 2) AND 1 = v AND (1::64 word)"
  by (simp add: and_one_eq mod2_eq_if)
lemma or1_add2: "(v + 2) OR 1 = (v OR 1) + (2::64 word)"
  by (simp add: or_one_eq)
lemma or1_sub2: "(v - 2) OR 1 = (v OR 1) - (2::64 word)"
  by (simp add: or_one_eq)
lemma or1_and1: "(v OR 1) AND 1 = (1::64 word)"
  by (simp add: and_one_eq or_one_eq mod2_eq_if)

lemma mod2_and1: "(v mod 2 = 1) = (v AND 1 \<noteq> (0::64 word))"
  by (simp add: and_one_eq mod2_eq_if)

lemma use_loop_odd: "expected AND 1 \<noteq> 0 \<Longrightarrow> use_loop n expected = (False, expected)"
  by (cases n) simp_all

lemma use_loop_even: "expected AND 1 = 0 \<Longrightarrow> use_loop n expected = (True, expected + 2)"
  by (induction n) simp_all

lemma isDropped_call: "isDropped s \<Longrightarrow> isDropped (call c s)"
  by (cases c) (simp_all add: isDropped_def mod2_and1 use_def use_loop_odd release_def markAsDropped_def Let_def and1_sub2 or1_and1)

lemma isDropped_calls: "isDropped s \<Longrightarrow> isDropped (calls cs s)"
  by (induction cs arbitrary: s) (simp_all add: isDropped_call)

lemma use_dropped: "isDropped s \<Longrightarrow> use n s = (False, s)"
  by (simp add: isDropped_def mod2_and1 use_def use_loop_odd)

lemma counter_after_calls:
  "refCount (calls cs s) =
     (if MarkAsDropped \<in> set cs then refCount s OR 1 else refCount s)
       + 2 * of_nat (successful_uses cs s) - 2 * of_nat (releases cs)"
proof (induction cs arbitrary: s)
  case Nil
  then show ?case by (simp add: releases_def)
next
  case (Cons c cs)
  show ?case
  proof (cases c)
    case (Use n)
    show ?thesis
    proof (cases "refCount s AND 1 = 0")
      case True
      then show ?thesis using Cons.IH [of "call c s"] Use
        by (simp add: use_def use_loop_even releases_def or1_add2 algebra_simps)
    next
      case False
      then show ?thesis using Cons.IH [of "call c s"] Use
        by (simp add: use_def use_loop_odd releases_def)
    qed
  next
    case Release
    then show ?thesis using Cons.IH [of "call c s"]
      by (simp add: release_def releases_def or1_sub2 algebra_simps)
  next
    case MarkAsDropped
    then show ?thesis using Cons.IH [of "call c s"]
      by (simp add: markAsDropped_def Let_def releases_def)
  qed
qed

lemma call_isSystem: "vocbaseIsSystem (call c s) = vocbaseIsSystem s"
  by (cases c) (simp_all add: use_def release_def markAsDropped_def Let_def split: prod.splits)

lemma calls_isSystem: "vocbaseIsSystem (calls cs s) = vocbaseIsSystem s"
  by (induction cs arbitrary: s) (simp_all add: call_isSystem)

text \<open>
  Claim C6. Once the deleted bit (the low bit of the counter) is set, which
  \<^verbatim>\<open>markAsDropped\<close> does, it stays set through every sequence of \<^verbatim>\<open>use\<close>, \<^verbatim>\<open>release\<close> and
  \<^verbatim>\<open>markAsDropped\<close> calls, and every later \<^verbatim>\<open>use\<close> returns false and leaves the state as
  it was. \<^verbatim>\<open>isDangling\<close> holds exactly when the database is not the system database and
  the counter equals 1.
\<close>

theorem C6_deleted_bit_blocks_use:
  "isDropped (snd (markAsDropped s)) \<and>
   (isDropped s \<longrightarrow>
      isDropped (calls cs s) \<and> use n (calls cs s) = (False, calls cs s)) \<and>
   (isDangling s \<longleftrightarrow> \<not> vocbaseIsSystem s \<and> refCount s = 1)"
  using isDropped_calls [of s cs] use_dropped [of "calls cs s" n]
  by (simp add: markAsDropped_def Let_def isDropped_def mod2_and1 or1_and1 isDangling_def)

theorem C6_witness:
  "isDropped (snd (markAsDropped fresh_database)) \<and>
   isDropped (calls [Release, Use 3, MarkAsDropped] (snd (markAsDropped fresh_database))) \<and>
   use 2 (calls [Release, Use 3, MarkAsDropped] (snd (markAsDropped fresh_database))) =
     (False, calls [Release, Use 3, MarkAsDropped] (snd (markAsDropped fresh_database)))"
  using C6_deleted_bit_blocks_use
    [of "snd (markAsDropped fresh_database)" "[Release, Use 3, MarkAsDropped]" 2]
    C6_deleted_bit_blocks_use [of fresh_database "[]" 0]
  by blast

text \<open>
  Claim C7. On a database that is not the system database and whose counter has its
  initial value 0: after any sequence of calls in which as many \<^verbatim>\<open>use\<close> calls succeeded as
  there were \<^verbatim>\<open>release\<close> calls, \<^verbatim>\<open>isDangling\<close> is true if \<^verbatim>\<open>markAsDropped\<close> was among the
  calls and false if it was not. So N successful uses and N releases leave it false,
  and with \<^verbatim>\<open>markAsDropped\<close> among them they leave it true.
\<close>

theorem C7_reference_count_parity:
  assumes "refCount s = 0" and "\<not> vocbaseIsSystem s"
    and "successful_uses cs s = releases cs"
  shows "isDangling (calls cs s) \<longleftrightarrow> MarkAsDropped \<in> set cs"
  using assms counter_after_calls [of cs s] by (simp add: isDangling_def calls_isSystem)

theorem C7_witness:
  "refCount fresh_database = 0 \<and> \<not> vocbaseIsSystem fresh_database \<and>
   successful_uses [Use 0, Use 1, Release, Release] fresh_database = 2 \<and>
   releases [Use 0, Use 1, Release, Release] = 2 \<and>
   \<not> isDangling (calls [Use 0, Use 1, Release, Release] fresh_database) \<and>
   successful_uses [Use 0, Use 1, Release, MarkAsDropped, Use 0, Release] fresh_database = 2 \<and>
   releases [Use 0, Use 1, Release, MarkAsDropped, Use 0, Release] = 2 \<and>
   isDangling (calls [Use 0, Use 1, Release, MarkAsDropped, Use 0, Release] fresh_database)"
proof -
  have start: "refCount fresh_database = 0" "\<not> vocbaseIsSystem fresh_database"
    by (simp_all add: fresh_database_def)
  have plain: "successful_uses [Use 0, Use 1, Release, Release] fresh_database = 2"
    "releases [Use 0, Use 1, Release, Release] = 2"
    by (simp_all add: fresh_database_def use_def release_def releases_def)
  have marked:
    "successful_uses [Use 0, Use 1, Release, MarkAsDropped, Use 0, Release] fresh_database = 2"
    "releases [Use 0, Use 1, Release, MarkAsDropped, Use 0, Release] = 2"
    by (simp_all add: fresh_database_def use_def release_def releases_def markAsDropped_def)
  from C7_reference_count_parity [OF start, of "[Use 0, Use 1, Release, Release]"] plain
  have "\<not> isDangling (calls [Use 0, Use 1, Release, Release] fresh_database)" by simp
  moreover
  from C7_reference_count_parity
    [OF start, of "[Use 0, Use 1, Release, MarkAsDropped, Use 0, Release]"] marked
  have "isDangling (calls [Use 0, Use 1, Release, MarkAsDropped, Use 0, Release] fresh_database)"
    by simp
  ultimately show ?thesis using start plain marked by blast
qed

section \<open>States that differ only in the log\<close>

lemma same_except_logI:
  "refCount s' = refCount s \<Longrightarrow> vocbaseIsSystem s' = vocbaseIsSystem s \<Longrightarrow>
   dataSourceByName s' = dataSourceByName s \<Longrightarrow> dataSourceById s' = dataSourceById s \<Longrightarrow>
   dataSourceByUuid s' = dataSourceByUuid s \<Longrightarrow> collections s' = collections s \<Longrightarrow>
   deadCollections s' = deadCollections s \<Longrightarrow> heap s' = heap s \<Longrightarrow>
   same_except_log s s'"
  by (cases s; cases s') (simp add: same_except_log_def)

lemma same_except_logD:
  "same_except_log s s' \<Longrightarrow>
     refCount s' = refCount s \<and> vocbaseIsSystem s' = vocbaseIsSystem s \<and>
     dataSourceByName s' = dataSourceByName s \<and> dataSourceById s' = dataSourceById s \<and>
     dataSourceByUuid s' = dataSourceByUuid s \<and> collections s' = collections s \<and>
     deadCollections s' = deadCollections s \<and> heap s' = heap s"
  by (cases s; cases s') (simp add: same_except_log_def)

lemma same_except_log_registered:
  "same_except_log s s' \<Longrightarrow> registered obj s' = registered obj s"
  by (drule same_except_logD) (simp add: registered_def)

lemma same_except_log_refl: "same_except_log s s"
  by (simp add: same_except_log_def)

lemma same_except_log_logev: "same_except_log s s' \<Longrightarrow> same_except_log s (logev e s')"
  by (rule same_except_logI) (auto dest: same_except_logD simp: logev_def)

lemma same_except_log_logev_left: "same_except_log (logev e s) s' \<Longrightarrow> same_except_log s s'"
  by (rule same_except_logI) (auto dest!: same_except_logD simp: logev_def)

lemma same_except_log_trans:
  "same_except_log s t \<Longrightarrow> same_except_log t u \<Longrightarrow> same_except_log s u"
  by (rule same_except_logI) (auto dest!: same_except_logD)

section \<open>Registration is all or nothing\<close>

lemma erase_emplaced: "m k = None \<Longrightarrow> erase (m(k \<mapsto> v)) k = m"
  by (auto simp: erase_def)

lemma registerCollection_failure:
  assumes "registerCollection doLock obj s = (Inl e, s')"
  shows "(e = TRI_ERROR_ARANGO_DUPLICATE_NAME \<or> e = TRI_ERROR_ARANGO_DUPLICATE_IDENTIFIER) \<and>
         same_except_log s s'"
proof -
  from assms have "(e = TRI_ERROR_ARANGO_DUPLICATE_NAME \<or> e = TRI_ERROR_ARANGO_DUPLICATE_IDENTIFIER) \<and>
    refCount s' = refCount s \<and> vocbaseIsSystem s' = vocbaseIsSystem s \<and>
     dataSourceByName s' = dataSourceByName s \<and> dataSourceById s' = dataSourceById s \<and>
     dataSourceByUuid s' = dataSourceByUuid s \<and> collections s' = collections s \<and>
     deadCollections s' = deadCollections s \<and> heap s' = heap s"
    by (auto simp: registerCollection_def Let_def logev_def emplace_def erase_emplaced
           split: option.splits if_splits)
  then show ?thesis by (simp add: same_except_logI)
qed

lemma registerView_failure:
  assumes "registerView doLock obj s = (Inl e, s')"
  shows "(e = TRI_ERROR_ARANGO_DUPLICATE_NAME \<or> e = TRI_ERROR_ARANGO_DUPLICATE_IDENTIFIER) \<and>
         same_except_log s s'"
proof -
  from assms have "(e = TRI_ERROR_ARANGO_DUPLICATE_NAME \<or> e = TRI_ERROR_ARANGO_DUPLICATE_IDENTIFIER) \<and>
    refCount s' = refCount s \<and> vocbaseIsSystem s' = vocbaseIsSystem s \<and>
     dataSourceByName s' = dataSourceByName s \<and> dataSourceById s' = dataSourceById s \<and>
     dataSourceByUuid s' = dataSourceByUuid s \<and> collections s' = collections s \<and>
     deadCollections s' = deadCollections s \<and> heap s' = heap s"
    by (auto simp: registerView_def Let_def logev_def emplace_def erase_emplaced erase_def
           split: option.splits if_splits)
  then show ?thesis by (simp add: same_except_logI)
qed

text \<open>
  Claim C2. When \<^verbatim>\<open>registerCollection\<close> or \<^verbatim>\<open>registerView\<close> throws, the error is the
  duplicate-name or the duplicate-identifier error (the latter also for a duplicate
  uuid), and the three maps are what they were before the call: the by-name insert that
  preceded a failed by-id insert, and the by-name and by-id inserts that preceded a
  failed by-uuid insert, are undone. So an object that no map held before the call is
  held by no map after it.
\<close>

theorem C2_failed_registration_rolls_back:
  "(registerCollection doLock obj s = (Inl e, s') \<or> registerView doLock obj s = (Inl e, s')) \<longrightarrow>
     (e = TRI_ERROR_ARANGO_DUPLICATE_NAME \<or> e = TRI_ERROR_ARANGO_DUPLICATE_IDENTIFIER) \<and>
     dataSourceByName s' = dataSourceByName s \<and> dataSourceById s' = dataSourceById s \<and>
     dataSourceByUuid s' = dataSourceByUuid s \<and>
     (\<not> registered obj s \<longrightarrow> \<not> registered obj s')"
  using registerCollection_failure [of doLock obj s e s']
    registerView_failure [of doLock obj s e s']
    same_except_logD [of s s'] same_except_log_registered [of s s' obj]
  by blast

lemma example_database_unregistered:
  "\<not> registered 2 example_database \<and> \<not> registered 3 example_database"
  by (auto simp: registered_def ran_def example_defs split: if_splits)

theorem C2_witness:
  "registerCollection True 2 example_database =
     (Inl TRI_ERROR_ARANGO_DUPLICATE_IDENTIFIER, logev WriteLockDataSource example_database) \<and>
   registerView True 3 example_database =
     (Inl TRI_ERROR_ARANGO_DUPLICATE_IDENTIFIER, logev WriteLockDataSource example_database) \<and>
   \<not> registered 2 example_database \<and> \<not> registered 3 example_database \<and>
   dataSourceByName (logev WriteLockDataSource example_database) =
     dataSourceByName example_database \<and>
   \<not> registered 2 (logev WriteLockDataSource example_database) \<and>
   \<not> registered 3 (logev WriteLockDataSource example_database)"
proof -
  have c: "registerCollection True 2 example_database =
     (Inl TRI_ERROR_ARANGO_DUPLICATE_IDENTIFIER, logev WriteLockDataSource example_database)"
    by (simp add: registerCollection_def example_defs emplace_def erase_def logev_def Let_def)
  have v: "registerView True 3 example_database =
     (Inl TRI_ERROR_ARANGO_DUPLICATE_IDENTIFIER, logev WriteLockDataSource example_database)"
    by (simp add: registerView_def example_defs emplace_def erase_def logev_def Let_def)
  from c v example_database_unregistered
    C2_failed_registration_rolls_back [of True 2 example_database
      TRI_ERROR_ARANGO_DUPLICATE_IDENTIFIER "logev WriteLockDataSource example_database"]
    C2_failed_registration_rolls_back [of True 3 example_database
      TRI_ERROR_ARANGO_DUPLICATE_IDENTIFIER "logev WriteLockDataSource example_database"]
  show ?thesis by blast
qed

section \<open>The invariant of the registry\<close>

text \<open>
  What the code keeps. From maps with finitely many keys, \<^verbatim>\<open>registerCollection\<close>,
  \<^verbatim>\<open>registerView\<close> and \<^verbatim>\<open>renameCollection\<close> preserve the two assertions whatever they are
  called with; \<^verbatim>\<open>unregisterCollection\<close> preserves them when the name and the uuid of the
  object it is given are keys of their maps.
\<close>

lemma map_size_insert:
  "finite (dom m) \<Longrightarrow> m k = None \<Longrightarrow> map_size (m(k \<mapsto> v)) = Suc (map_size m)"
  by (simp add: map_size_def domIff)

lemma map_size_remove:
  "finite (dom m) \<Longrightarrow> m k = Some v \<Longrightarrow> Suc (map_size (m(k := None))) = map_size m"
proof -
  assume f: "finite (dom m)" and k: "m k = Some v"
  then have "k \<in> dom m" by (simp add: domIff)
  with f have "card (dom m) = Suc (card (dom m - {k}))"
    by (rule card.remove)
  then show ?thesis by (simp add: map_size_def)
qed

lemma registerCollection_keeps_invariant:
  assumes "finite (dom (dataSourceByName s))" "finite (dom (dataSourceById s))"
    "finite (dom (dataSourceByUuid s))" "checkCollectionInvariants s"
  shows "checkCollectionInvariants (snd (registerCollection doLock obj s))"
  using assms
  by (auto simp: registerCollection_def checkCollectionInvariants_def Let_def
        emplace_def erase_def logev_def setStatus_def map_size_insert fun_upd_idem
        split: option.splits)

lemma registerView_keeps_invariant:
  assumes "finite (dom (dataSourceByName s))" "finite (dom (dataSourceById s))"
    "finite (dom (dataSourceByUuid s))" "checkCollectionInvariants s"
  shows "checkCollectionInvariants (snd (registerView doLock obj s))"
  using assms
  by (auto simp: registerView_def checkCollectionInvariants_def Let_def
        emplace_def erase_def logev_def map_size_insert fun_upd_idem
        split: option.splits)

lemma lock_loop_same: "lock_loop obj ls s = Some s' \<Longrightarrow> same_except_log s s'"
proof (induction ls arbitrary: s)
  case Nil
  then show ?case by simp
next
  case (Cons l ls)
  show ?case
  proof (cases l)
    case True
    with Cons.prems show ?thesis
      by (auto intro!: same_except_logI simp: logev_def)
  next
    case False
    with Cons.prems Cons.IH [of "logev Sleep (logev WriteUnlockDataSource
                (logev (TryLockObject obj False) (logev WriteLockDataSource s)))"]
    have "same_except_log (logev Sleep (logev WriteUnlockDataSource
                (logev (TryLockObject obj False) (logev WriteLockDataSource s)))) s'"
      by simp
    then show ?thesis
      by (auto intro!: same_except_logI dest!: same_except_logD simp: logev_def)
  qed
qed

lemma renameCollection_keeps_invariant:
  assumes "finite (dom (dataSourceByName s))" "checkCollectionInvariants s"
    and "renameCollection cfg env obj newName doOverride s = Some (res, s')"
  shows "checkCollectionInvariants s'"
proof -
  have swap: "map_size ((m(newName \<mapsto> v))(oldName := None)) = map_size m"
    if "finite (dom m)" "m newName = None" "m oldName = Some w" for m :: "string \<rightharpoonup> ref" and v w oldName
  proof -
    from that have ne: "oldName \<noteq> newName" by auto
    from that have "finite (dom (m(newName \<mapsto> v)))" by simp
    from map_size_remove [OF this, of oldName w] that ne
    have "Suc (map_size ((m(newName \<mapsto> v))(oldName := None))) = map_size (m(newName \<mapsto> v))"
      by simp
    with map_size_insert [OF that(1,2), of v] show ?thesis by simp
  qed
  show ?thesis
  proof (cases "lock_loop obj (tryLocks env) (logev ReadLockInventory s)")
    case None
    with assms show ?thesis
      by (auto simp: renameCollection_def Let_def split: if_splits)
  next
    case (Some s1)
    from lock_loop_same [OF Some] have "same_except_log s s1"
      by (auto intro!: same_except_logI dest!: same_except_logD simp: logev_def)
    then have eq: "dataSourceByName s1 = dataSourceByName s" "dataSourceById s1 = dataSourceById s"
      "dataSourceByUuid s1 = dataSourceByUuid s"
      by (simp_all add: same_except_logD)
    with assms Some show ?thesis
      by (auto simp: renameCollection_def Let_def checkCollectionInvariants_def emplace_def
            erase_def logev_def object_rename_def setName_def swap
          split: if_splits option.splits)
  qed
qed

lemma unregisterCollection_keeps_invariant:
  assumes "finite (dom (dataSourceByName s))" "finite (dom (dataSourceById s))"
    "finite (dom (dataSourceByUuid s))" "checkCollectionInvariants s"
    and "dataSourceByName s (ds_name (heap s obj)) \<noteq> None"
    and "dataSourceByUuid s (ds_globallyUniqueId (heap s obj)) \<noteq> None"
  shows "checkCollectionInvariants (snd (unregisterCollection obj s))"
proof (cases "dataSourceById s (ds_id (heap s obj))")
  case None
  with assms(4) show ?thesis by (simp add: unregisterCollection_def)
next
  case (Some found)
  from assms(5) obtain n where n: "dataSourceByName s (ds_name (heap s obj)) = Some n" by auto
  from assms(6) obtain u where u: "dataSourceByUuid s (ds_globallyUniqueId (heap s obj)) = Some u"
    by auto
  from map_size_remove [OF assms(1) n] map_size_remove [OF assms(2) Some]
    map_size_remove [OF assms(3) u] assms(4) Some
  show ?thesis
    by (auto simp: unregisterCollection_def checkCollectionInvariants_def erase_def)
qed

text \<open>
  Claim C1. The claim is that after every registry mutation the by-name and the by-id
  map have the same number of entries and the by-uuid map has no more; the code asserts
  this in \<^verbatim>\<open>checkCollectionInvariants\<close>. The run below breaks it. Collection \<open>1\<close>, named
  \<open>a\<close>, is registered in the fresh database; it is renamed to \<open>b\<close> and its own \<^verbatim>\<open>rename\<close>
  fails, leaving it the name \<open>a\<close>, yet \<^verbatim>\<open>renameCollection\<close> swaps the keys of the by-name
  map and returns success; \<^verbatim>\<open>unregisterCollection\<close>, which every drop calls, then erases
  the id and the uuid, and erases the name \<open>a\<close>, which is no key any more. One by-name
  entry is left and no by-id entry.
\<close>

theorem C1_failed_rename_then_unregister_breaks_invariant:
  "registerCollection False 1 fresh_database = (Inr (), after_register) \<and>
   checkCollectionInvariants after_register \<and>
   renameCollection example_config failing_rename 1 ''b'' False after_register =
     Some (TRI_ERROR_NO_ERROR, after_failed_rename) \<and>
   checkCollectionInvariants after_failed_rename \<and>
   unregisterCollection 1 after_failed_rename = (True, after_unregister) \<and>
   map_size (dataSourceByName after_unregister) = 1 \<and>
   map_size (dataSourceById after_unregister) = 0 \<and>
   \<not> checkCollectionInvariants after_unregister"
proof -
  have "registerCollection False 1 fresh_database = (Inr (), after_register)"
    by (simp add: registerCollection_def example_defs emplace_def setStatus_def Let_def)
  moreover
  have "renameCollection example_config failing_rename 1 ''b'' False after_register =
      Some (TRI_ERROR_NO_ERROR, after_failed_rename)"
    by (simp add: renameCollection_def example_defs emplace_def erase_def logev_def
        object_rename_def setName_def name_defs Let_def)
  moreover
  have "unregisterCollection 1 after_failed_rename = (True, after_unregister)"
    by (simp add: unregisterCollection_def example_defs erase_def)
  moreover
  have "checkCollectionInvariants after_register \<and>
      checkCollectionInvariants after_failed_rename \<and>
      map_size (dataSourceByName after_unregister) = 1 \<and>
      map_size (dataSourceById after_unregister) = 0 \<and>
      \<not> checkCollectionInvariants after_unregister"
    by (simp add: checkCollectionInvariants_def map_size_def example_defs)
  ultimately show ?thesis by simp
qed

section \<open>Rename\<close>

text \<open>
  Claim C3. The claim is that a rename whose persistence-facing call fails leaves the
  by-name map as it was and returns the error. In \<^verbatim>\<open>renameCollection\<close> the failure is
  dropped: with collection \<open>1\<close> registered as \<open>a\<close>, the name \<open>b\<close> free and the object's
  \<^verbatim>\<open>rename\<close> returning an error, the call removes the key \<open>a\<close>, inserts the key \<open>b\<close>, goes
  on to the storage engine and returns the engine's result, here success.
\<close>

theorem C3_failed_collection_rename_swaps_keys:
  "dataSourceByName example_database ''a'' = Some 1 \<and>
   dataSourceByName example_database ''b'' = None \<and>
   rename_result failing_rename = TRI_ERROR_INTERNAL \<and>
   renameCollection example_config failing_rename 1 ''b'' False example_database =
     Some (TRI_ERROR_NO_ERROR,
       example_database
         \<lparr>dataSourceByName := [''w'' \<mapsto> 4, ''_users'' \<mapsto> 5, ''c'' \<mapsto> 6, ''b'' \<mapsto> 1],
          log := [ReadLockInventory, WriteLockDataSource, TryLockObject 1 True,
                  CollectionRename 1 ''b'' TRI_ERROR_INTERNAL, UnlockObject 1,
                  WriteUnlockDataSource,
                  EngineRenameCollection 1 ''a'' TRI_ERROR_NO_ERROR]\<rparr>)"
  by (simp add: renameCollection_def example_defs emplace_def erase_def logev_def
        object_rename_def setName_def name_defs Let_def fun_upd_idem_iff)

text \<open>
  Claim C9. The claim is that \<^verbatim>\<open>renameView\<close> of a view registered under its old name, to
  a legal and unused new name, does not report not-found but swaps the keys and goes on
  to the persistence-facing call. The code tests the category of the entry with \<open>=\<close>
  where \<^verbatim>\<open>renameCollection\<close> tests with \<open>\<noteq>\<close>: view \<open>4\<close>, registered as \<open>w\<close>, renamed to
  \<open>x\<close>, gets the not-found error; the maps are untouched and no rename call is made.
\<close>

theorem C9_renameView_of_registered_view_not_found:
  "dataSourceByName example_database ''w'' = Some 4 \<and>
   ds_category (heap example_database 4) = View \<and>
   ds_name (heap example_database 4) = ''w'' \<and>
   dataSourceByName example_database ''x'' = None \<and>
   IsAllowedName (colNameLength example_config) (IsSystemName ''x'') ''x'' \<and>
   renameView example_config smooth_rename 4 ''x'' example_database =
     Some (TRI_ERROR_ARANGO_DATA_SOURCE_NOT_FOUND,
       example_database\<lparr>log := [ReadLockInventory, WriteLockDataSource]\<rparr>)"
  by (simp add: renameView_def example_defs logev_def name_defs Let_def)

text \<open>
  Claim C10, as stated, fails for a system collection: \<^verbatim>\<open>renameCollection\<close> refuses it
  before it compares the names. Renaming the system collection \<open>_users\<close> to \<open>_users\<close>
  returns the forbidden error.
\<close>

theorem C10_system_collection_counterexample:
  "ds_name (heap example_database 5) = ''_users'' \<and>
   renameCollection example_config smooth_rename 5 ''_users'' False example_database =
     Some (TRI_ERROR_FORBIDDEN, example_database)"
  by (simp add: renameCollection_def example_defs)

text \<open>
  Claim C10, amended. \<^verbatim>\<open>renameView\<close> to the view's current name, and \<^verbatim>\<open>renameCollection\<close>
  of a collection that is not a system collection to its current name, return success
  and leave the whole state as it was, the log included: no lock is taken, no map is
  changed and no rename call is made.
\<close>

theorem C10_identity_rename_is_noop:
  "(ds_name (heap s view) = newName \<longrightarrow>
      renameView cfg env view newName s = Some (TRI_ERROR_NO_ERROR, s)) \<and>
   (ds_name (heap s collection) = newName \<and> \<not> ds_isSystem (heap s collection) \<longrightarrow>
      renameCollection cfg env collection newName doOverride s = Some (TRI_ERROR_NO_ERROR, s))"
  by (simp add: renameView_def renameCollection_def)

theorem C10_witness:
  "ds_name (heap example_database 4) = ''w'' \<and>
   renameView example_config smooth_rename 4 ''w'' example_database =
     Some (TRI_ERROR_NO_ERROR, example_database) \<and>
   ds_name (heap example_database 1) = ''a'' \<and>
   \<not> ds_isSystem (heap example_database 1) \<and>
   renameCollection example_config smooth_rename 1 ''a'' False example_database =
     Some (TRI_ERROR_NO_ERROR, example_database)"
proof -
  have v: "ds_name (heap example_database 4) = ''w''"
    and c: "ds_name (heap example_database 1) = ''a''" "\<not> ds_isSystem (heap example_database 1)"
    by (simp_all add: example_defs)
  from v c
    C10_identity_rename_is_noop [of example_database 4 "''w''" example_config smooth_rename 1 False]
    C10_identity_rename_is_noop [of example_database 4 "''a''" example_config smooth_rename 1 False]
  show ?thesis by blast
qed

section \<open>Drop\<close>

text \<open>
  The \<^verbatim>\<open>UNLOADED\<close> case undoes the deleted flag when \<^verbatim>\<open>engine->changeCollection\<close> throws: the
  state is then what it was, but for the log.
\<close>

lemma setDeleted_undone:
  "\<not> ds_deleted (heap s obj) \<Longrightarrow>
     same_except_log s (setDeleted obj False (logev e (setDeleted obj True s)))"
  by (rule same_except_logI) (simp_all add: setDeleted_def logev_def fun_eq_iff)

lemma drop_unloaded_failure:
  assumes "\<not> ds_deleted (heap s obj)" and "changeCollection_outcome a \<noteq> ChangeReturns"
  shows "same_except_log s (snd (snd (drop_unloaded a obj s))) \<and>
         fst (snd (drop_unloaded a obj s)) = DROP_EXIT"
  using assms setDeleted_undone [of s obj "EngineChangeCollection obj"]
  by (cases "changeCollection_outcome a") (simp_all add: drop_unloaded_def Let_def)

text \<open>
  Claim C4. The claim is that a drop whose persistence step fails returns with the
  deleted flag unset. The \<^verbatim>\<open>UNLOADED\<close> case of \<^verbatim>\<open>dropCollectionWorker\<close> resets the flag in
  its \<^verbatim>\<open>catch\<close> blocks; the \<^verbatim>\<open>LOADED\<close>/\<^verbatim>\<open>UNLOADING\<close> case sets the flag and returns the error
  of \<^verbatim>\<open>updateProperties\<close> without resetting it. Collection \<open>1\<close> is loaded and not deleted;
  after the failed drop it is still registered and its flag is set.
\<close>

theorem C4_failed_drop_of_loaded_collection_keeps_flag:
  "ds_status (heap example_database 1) = TRI_VOC_COL_STATUS_LOADED \<and>
   \<not> ds_deleted (heap example_database 1) \<and>
   dropCollection example_config 1 False 2 [failing_attempt] example_database =
     Some (TRI_ERROR_OTHER 1,
       example_database
         \<lparr>heap := example_heap(1 := (example_heap 1)\<lparr>ds_deleted := True\<rparr>),
          log := [ReadLockInventory, WriteLockDataSource, TryLockObject 1 True,
                  CollectionUpdateProperties 1 (TRI_ERROR_OTHER 1)]\<rparr>)"
  by (simp add: dropCollection_def dropCollectionWorker_def drop_loaded_def example_defs
        logev_def setDeleted_def Let_def)

lemma drop_lock_loop_expires:
  assumes "0 \<le> timeout" and "expires_while_contended cfg start timeout ps"
  shows "\<exists>s'. drop_lock_loop cfg obj start timeout ps s = Some (False, s') \<and> same_except_log s s'"
  using assms(2)
proof (induction ps arbitrary: s)
  case Nil
  then show ?case by simp
next
  case (Cons p ps)
  obtain locked now where p: "p = (locked, now)" by (cases p)
  let ?s1 = "logev WriteUnlockDataSource
               (logev (TryLockObject obj False) (logev WriteLockDataSource s))"
  have s1: "same_except_log s ?s1"
    by (intro same_except_log_logev same_except_log_refl)
  from Cons.prems p have unlocked: "\<not> locked" by simp
  show ?case
  proof (cases "now > double_add cfg start timeout")
    case True
    with unlocked p assms(1) s1 show ?thesis by (simp add: Let_def)
  next
    case False
    with Cons.prems p have "expires_while_contended cfg start timeout ps" by simp
    from Cons.IH [OF this, of "logev Sleep ?s1"]
    obtain s' where r: "drop_lock_loop cfg obj start timeout ps (logev Sleep ?s1) = Some (False, s')"
      and e: "same_except_log (logev Sleep ?s1) s'" by blast
    from e s1 have "same_except_log s s'"
      by (blast intro: same_except_log_trans same_except_log_logev_left)
    with r unlocked p False show ?thesis by (simp add: Let_def)
  qed
qed

lemma drop_lock_loop_acquires:
  assumes "acquires_locks cfg start timeout ps"
  shows "\<exists>s'. drop_lock_loop cfg obj start timeout ps s = Some (True, s') \<and> same_except_log s s'"
  using assms
proof (induction ps arbitrary: s)
  case Nil
  then show ?case by simp
next
  case (Cons p ps)
  obtain locked now where p: "p = (locked, now)" by (cases p)
  let ?s1 = "logev WriteUnlockDataSource
               (logev (TryLockObject obj False) (logev WriteLockDataSource s))"
  have s1: "same_except_log s ?s1"
    by (intro same_except_log_logev same_except_log_refl)
  show ?case
  proof (cases locked)
    case True
    with p show ?thesis
      by (simp add: same_except_log_logev same_except_log_refl)
  next
    case False
    with Cons.prems p have a: "acquires_locks cfg start timeout ps"
      and t: "\<not> (timeout \<ge> 0 \<and> now > double_add cfg start timeout)" by simp_all
    from Cons.IH [OF a, of "logev Sleep ?s1"]
    obtain s' where r: "drop_lock_loop cfg obj start timeout ps (logev Sleep ?s1) = Some (True, s')"
      and e: "same_except_log (logev Sleep ?s1) s'" by blast
    from e s1 have "same_except_log s s'"
      by (blast intro: same_except_log_trans same_except_log_logev_left)
    with r p False t show ?thesis by (simp add: Let_def)
  qed
qed

lemma worker_expires:
  assumes "0 \<le> timeout" and "expires_while_contended cfg (startTime a) timeout (polls a)"
  shows "\<exists>s'. dropCollectionWorker cfg a obj timeout s = Some (TRI_ERROR_LOCK_TIMEOUT, DROP_EXIT, s')
           \<and> same_except_log s s'"
proof -
  from drop_lock_loop_expires [OF assms, of obj s]
  obtain s' where "drop_lock_loop cfg obj (startTime a) timeout (polls a) s = Some (False, s')"
    and "same_except_log s s'" by blast
  then show ?thesis by (simp add: dropCollectionWorker_def)
qed

lemma worker_loading:
  assumes "acquires_locks cfg (startTime a) timeout (polls a)"
    and "ds_status (heap s obj) = TRI_VOC_COL_STATUS_LOADING"
  shows "\<exists>s'. dropCollectionWorker cfg a obj timeout s = Some (TRI_ERROR_NO_ERROR, DROP_AGAIN, s')
           \<and> same_except_log s s'"
proof -
  from drop_lock_loop_acquires [OF assms(1), of obj s]
  obtain s' where r: "drop_lock_loop cfg obj (startTime a) timeout (polls a) s = Some (True, s')"
    and e: "same_except_log s s'" by blast
  from e have "heap s' = heap s" by (simp add: same_except_logD)
  with r e assms(2) show ?thesis by (simp add: dropCollectionWorker_def)
qed

lemma loop_expires:
  assumes "0 \<le> timeout"
    and "\<forall>b \<in> set pre. acquires_locks cfg (startTime b) timeout (polls b)"
    and "pre \<noteq> [] \<longrightarrow> ds_status (heap s obj) = TRI_VOC_COL_STATUS_LOADING"
    and "expires_while_contended cfg (startTime a) timeout (polls a)"
  shows "\<exists>s'. dropCollection_loop cfg obj timeout (pre @ a # post) s
                 = Some (TRI_ERROR_LOCK_TIMEOUT, s') \<and> same_except_log s s'"
  using assms(2,3)
proof (induction pre arbitrary: s)
  case Nil
  from worker_expires [OF assms(1) assms(4), of obj "logev ReadLockInventory s"]
  obtain s' where w: "dropCollectionWorker cfg a obj timeout (logev ReadLockInventory s)
      = Some (TRI_ERROR_LOCK_TIMEOUT, DROP_EXIT, s')"
    and e: "same_except_log (logev ReadLockInventory s) s'" by blast
  from w e show ?case by (simp add: same_except_log_logev_left)
next
  case (Cons b pre)
  then have st: "ds_status (heap s obj) = TRI_VOC_COL_STATUS_LOADING" by simp
  then have st': "ds_status (heap (logev ReadLockInventory s) obj) = TRI_VOC_COL_STATUS_LOADING"
    by (simp add: logev_def)
  from Cons.prems have "acquires_locks cfg (startTime b) timeout (polls b)" by simp
  from worker_loading [OF this st']
  obtain s1 where w: "dropCollectionWorker cfg b obj timeout (logev ReadLockInventory s)
      = Some (TRI_ERROR_NO_ERROR, DROP_AGAIN, s1)"
    and e: "same_except_log (logev ReadLockInventory s) s1" by blast
  from e have e1: "same_except_log s (logev Sleep s1)"
    by (simp add: same_except_log_logev_left same_except_log_logev)
  then have "heap (logev Sleep s1) = heap s" by (simp add: same_except_logD)
  with st have st1: "pre \<noteq> [] \<longrightarrow> ds_status (heap (logev Sleep s1) obj) = TRI_VOC_COL_STATUS_LOADING"
    by simp
  from Cons.prems have "\<forall>b \<in> set pre. acquires_locks cfg (startTime b) timeout (polls b)" by simp
  from Cons.IH [OF this st1]
  obtain s' where r: "dropCollection_loop cfg obj timeout (pre @ a # post) (logev Sleep s1)
      = Some (TRI_ERROR_LOCK_TIMEOUT, s')"
    and e2: "same_except_log (logev Sleep s1) s'" by blast
  from w r have "dropCollection_loop cfg obj timeout ((b # pre) @ a # post) s
      = Some (TRI_ERROR_LOCK_TIMEOUT, s')" by simp
  with same_except_log_trans [OF e1 e2] show ?case by blast
qed

text \<open>
  Claim C5. A \<^verbatim>\<open>dropCollection\<close> call with a timeout that is not negative, not refused
  by the guard for system collections, in which a run of the worker sees the timeout
  expire while the collection's lock is contended (a clock reading after a failed
  \<^verbatim>\<open>tryLock\<close> is greater than the machine's sum of start time and timeout, whatever that
  sum rounds to), returns the lock-timeout error and
  leaves the state as it was but for the log: the maps, the status and the deleted flag
  are unchanged. Runs of the worker before that one can only have got the locks and
  found the collection loading, which changes nothing and asks for another run.
\<close>

theorem C5_lock_timeout_changes_nothing:
  assumes "0 \<le> timeout"
    and "allowDropSystem \<or> \<not> ds_isSystem (heap s obj) \<or> inRecovery cfg"
    and "\<forall>b \<in> set pre. acquires_locks cfg (startTime b) timeout (polls b)"
    and "pre \<noteq> [] \<longrightarrow> ds_status (heap s obj) = TRI_VOC_COL_STATUS_LOADING"
    and "expires_while_contended cfg (startTime a) timeout (polls a)"
  shows "\<exists>s'. dropCollection cfg obj allowDropSystem timeout (pre @ a # post) s
                 = Some (TRI_ERROR_LOCK_TIMEOUT, s') \<and> same_except_log s s'"
  using loop_expires [OF assms(1) assms(3) assms(4) assms(5), of post] assms(2)
  by (auto simp: dropCollection_def)

theorem C5_witness:
  "(0::real) \<le> 2 \<and> \<not> ds_isSystem (heap example_database 6) \<and>
   acquires_locks example_config (startTime smooth_attempt) 2 (polls smooth_attempt) \<and>
   ds_status (heap example_database 6) = TRI_VOC_COL_STATUS_LOADING \<and>
   expires_while_contended example_config (startTime contended_attempt) 2 (polls contended_attempt) \<and>
   (\<exists>s'. dropCollection example_config 6 False 2
            [smooth_attempt, contended_attempt, smooth_attempt] example_database
            = Some (TRI_ERROR_LOCK_TIMEOUT, s') \<and> same_except_log example_database s')"
proof -
  have t: "(0::real) \<le> 2" by simp
  have g: "\<not> ds_isSystem (heap example_database 6)" by (simp add: example_defs)
  have p: "acquires_locks example_config (startTime smooth_attempt) 2 (polls smooth_attempt)"
    by (simp add: example_defs)
  have l: "ds_status (heap example_database 6) = TRI_VOC_COL_STATUS_LOADING"
    by (simp add: example_defs)
  have e: "expires_while_contended example_config (startTime contended_attempt) 2 (polls contended_attempt)"
    by (simp add: example_defs)
  from g have g': "False \<or> \<not> ds_isSystem (heap example_database 6) \<or> inRecovery example_config"
    by simp
  from p have p': "\<forall>b \<in> set [smooth_attempt].
      acquires_locks example_config (startTime b) 2 (polls b)" by simp
  from l have l': "[smooth_attempt] \<noteq> [] \<longrightarrow>
      ds_status (heap example_database 6) = TRI_VOC_COL_STATUS_LOADING" by simp
  from C5_lock_timeout_changes_nothing [OF t g' p' l' e, of "[smooth_attempt]"]
  have "\<exists>s'. dropCollection example_config 6 False 2
            [smooth_attempt, contended_attempt, smooth_attempt] example_database
            = Some (TRI_ERROR_LOCK_TIMEOUT, s') \<and> same_except_log example_database s'"
    by simp
  with t g p l e show ?thesis by blast
qed

text \<open>
  Claim C8, as stated, fails for \<^verbatim>\<open>dropView\<close> by name: when no view is found under the
  name it returns the not-found error, not success. No data source is called \<open>ghost\<close>.
\<close>

theorem C8_dropView_by_name_counterexample:
  "lookupDataSource example_config ''ghost'' example_database = None \<and>
   dropView_name example_config free_view_locks ''ghost'' example_database =
     Some (TRI_ERROR_ARANGO_DATA_SOURCE_NOT_FOUND, example_database)"
  by (simp add: dropView_name_def lookupView_def lookupDataSource_def example_defs is_digit_def)

text \<open>
  Claim C8, amended. \<^verbatim>\<open>unregisterCollection\<close> and \<^verbatim>\<open>unregisterView\<close> of an object that is not
  present in the registry (no entry under its id, or an entry of the other category)
  return true and leave the state as it was. \<^verbatim>\<open>dropView\<close> by a name under which
  \<^verbatim>\<open>lookupView\<close> finds no view returns the not-found error and leaves the state as it was.
\<close>

theorem C8_drop_of_absent_changes_nothing:
  "(not_present Collection obj s \<longrightarrow> unregisterCollection obj s = (True, s)) \<and>
   (not_present View obj s \<longrightarrow> unregisterView obj s = (True, s)) \<and>
   (lookupView cfg name s = None \<longrightarrow>
      dropView_name cfg env name s = Some (TRI_ERROR_ARANGO_DATA_SOURCE_NOT_FOUND, s))"
  by (auto simp: not_present_def unregisterCollection_def unregisterView_def dropView_name_def
           split: option.splits)

theorem C8_witness:
  "not_present Collection 2 example_database \<and>
   unregisterCollection 2 example_database = (True, example_database) \<and>
   not_present View 3 example_database \<and>
   unregisterView 3 example_database = (True, example_database) \<and>
   lookupView example_config ''a'' example_database = None \<and>
   dropView_name example_config free_view_locks ''a'' example_database =
     Some (TRI_ERROR_ARANGO_DATA_SOURCE_NOT_FOUND, example_database)"
proof -
  have c: "not_present Collection 2 example_database"
    and v: "not_present View 3 example_database"
    by (simp_all add: not_present_def example_defs)
  have n: "lookupView example_config ''a'' example_database = None"
    by (simp add: lookupView_def lookupDataSource_def example_defs is_digit_def)
  from c v n
    C8_drop_of_absent_changes_nothing
      [of 2 example_database example_config "''a''" free_view_locks]
    C8_drop_of_absent_changes_nothing
      [of 3 example_database example_config "''a''" free_view_locks]
  show ?thesis by blast
qed

end
